theory Spec2Isabelle
  imports Main
begin

section \<open>JavaScript values\<close>

text \<open>
  The embedding follows \<^verbatim>\<open>backend-server.js\<close>. Values that travel through a request body
  or a stored record are JSON values; a property that is absent reads as \<^verbatim>\<open>undefined\<close>,
  which is \<open>None\<close> here. A JavaScript number is a double: the model takes the
  integer-valued ones, as integers, and rounds every sum the way the machine does.
\<close>

datatype jsval =
    JNull
  | JBool bool
  | JNum int
  | JStr string
  | JArr "jsval list"
  | JObj "(string \<times> jsval) list"

text \<open>ToBoolean: \<^verbatim>\<open>undefined\<close>, \<^verbatim>\<open>null\<close>, \<^verbatim>\<open>false\<close>, \<^verbatim>\<open>0\<close> and \<^verbatim>\<open>""\<close> are falsy,
  every array and every object is truthy.\<close>

fun truthy :: "jsval option \<Rightarrow> bool" where
  "truthy None = False"
| "truthy (Some JNull) = False"
| "truthy (Some (JBool b)) = b"
| "truthy (Some (JNum n)) = (n \<noteq> 0)"
| "truthy (Some (JStr s)) = (s \<noteq> [])"
| "truthy (Some (JArr xs)) = True"
| "truthy (Some (JObj kvs)) = True"

text \<open>The value of a numeric property (\<^verbatim>\<open>id\<close>, \<^verbatim>\<open>visits\<close>) of a stored object: the property
  is missing, it is \<^verbatim>\<open>null\<close>, or it is an integer.\<close>

datatype jsnum = Undefined | Null | Number int

text \<open>\<^verbatim>\<open>v || 0\<close>: the value itself when it is truthy, otherwise 0.\<close>

fun or_zero :: "jsnum \<Rightarrow> int" where
  "or_zero Undefined = 0"
| "or_zero Null = 0"
| "or_zero (Number n) = (if n \<noteq> 0 then n else 0)"

subsection \<open>parseInt\<close>

text \<open>
  \<^verbatim>\<open>parseInt\<close> is a builtin of the language and no code of the repository: the handlers
  that call it take it as a parameter, a function from the path parameter to a number,
  and every theorem below holds for every such function. What it returns is always a
  number: \<^verbatim>\<open>NaN\<close>, an infinity, or an integer.
\<close>

datatype number = NaN | Infinity | NegInfinity | Finite int

text \<open>\<^verbatim>\<open>p.id === productId\<close>, with a number on the right: only an integer property is equal
  to it, and only to the same integer.\<close>

fun strict_eq :: "jsnum \<Rightarrow> number \<Rightarrow> bool" where
  "strict_eq (Number a) (Finite b) = (a = b)"
| "strict_eq _ _ = False"

text \<open>A number as the property of an object that \<^verbatim>\<open>JSON.stringify\<close> writes out, to the file
  or to the response: an integer is written as it is, \<^verbatim>\<open>NaN\<close> and the infinities as
  \<^verbatim>\<open>null\<close>.\<close>

fun json_number :: "number \<Rightarrow> jsnum" where
  "json_number (Finite n) = Number n"
| "json_number NaN = Null"
| "json_number Infinity = Null"
| "json_number NegInfinity = Null"

subsection \<open>Addition of doubles\<close>

text \<open>
  A double has a significand of 53 bits. \<open>round_double\<close> rounds an integer to the nearest
  integer that a double holds, a tie going to the even significand: with \<open>e\<close> the number
  of bits beyond 53, the low \<open>e\<close> bits are cut off, and the rest is rounded up when the
  bits cut off are more than half, or exactly half with the rest odd. The sum of two
  doubles is their exact sum, rounded.
\<close>

fun bit_length :: "nat \<Rightarrow> nat" where
  "bit_length n = (if n = 0 then 0 else Suc (bit_length (n div 2)))"

declare bit_length.simps [simp del]

definition round_double :: "int \<Rightarrow> int" where
  "round_double x =
     (let m = nat \<bar>x\<bar>;
          e = bit_length m - 53;
          q = m div 2 ^ e;
          r = m mod 2 ^ e;
          q' = (if 2 ^ e < 2 * r \<or> (2 * r = 2 ^ e \<and> odd q) then q + 1 else q)
      in sgn x * int (q' * 2 ^ e))"

definition js_plus :: "int \<Rightarrow> int \<Rightarrow> int" where
  "js_plus a b = round_double (a + b)"

section \<open>Data model\<close>

text \<open>A stored product is an object with the properties \<^verbatim>\<open>id\<close>, \<^verbatim>\<open>name\<close>,
  \<^verbatim>\<open>description\<close>, \<^verbatim>\<open>image\<close>, \<^verbatim>\<open>alt\<close>, and whatever other properties the file gives it.\<close>

record product =
  p_id :: jsnum
  p_name :: "jsval option"
  p_description :: "jsval option"
  p_image :: "jsval option"
  p_alt :: "jsval option"
  p_rest :: "(string \<times> jsval) list"

record stats =
  visits :: jsnum
  s_rest :: "(string \<times> jsval) list"

text \<open>\<^verbatim>\<open>req.body\<close>, destructured into its four properties.\<close>

record body =
  b_name :: "jsval option"
  b_description :: "jsval option"
  b_image :: "jsval option"
  b_alt :: "jsval option"

section \<open>Persistence\<close>

text \<open>
  A file is absent (\<open>None\<close>) or has contents. The contents either make \<^verbatim>\<open>JSON.parse\<close> throw
  (\<open>Garbage\<close>) or parse to a value (\<open>Json v\<close>); \<^verbatim>\<open>writeFileSync\<close> of \<^verbatim>\<open>JSON.stringify(v)\<close>
  leaves contents that parse to \<open>v\<close>. Contents that parse are taken to have the shape of
  the data model: an array of product objects in the product file, a stats object in the
  stats file, and their numbers are integers that a double holds. Writes are taken to
  succeed. Every call of \<^verbatim>\<open>readFileSync\<close> and \<^verbatim>\<open>writeFileSync\<close> is recorded in \<open>io_log\<close>,
  so that a handler that returns the disk it was given has touched no file.
\<close>

datatype exn = ENOENT | SyntaxError

datatype 'a contents = Garbage | Json 'a

datatype path = PRODUCTS_FILE | STATS_FILE

datatype io = ReadFile path | WriteFile path

record disk =
  products_json :: "product list contents option"
  stats_json :: "stats contents option"
  io_log :: "io list"

definition readFileSync :: "'a contents option \<Rightarrow> exn + 'a contents" where
  "readFileSync f = (case f of None \<Rightarrow> Inl ENOENT | Some d \<Rightarrow> Inr d)"

definition JSON_parse :: "'a contents \<Rightarrow> exn + 'a" where
  "JSON_parse d = (case d of Garbage \<Rightarrow> Inl SyntaxError | Json v \<Rightarrow> Inr v)"

definition loadProducts :: "disk \<Rightarrow> product list \<times> disk" where
  "loadProducts fs =
     (let fs' = fs\<lparr>io_log := io_log fs @ [ReadFile PRODUCTS_FILE]\<rparr> in
      case readFileSync (products_json fs) of
        Inl e \<Rightarrow> ([], fs')
      | Inr data \<Rightarrow>
          (case JSON_parse data of
             Inl e \<Rightarrow> ([], fs')
           | Inr v \<Rightarrow> (v, fs')))"

definition saveProducts :: "product list \<Rightarrow> disk \<Rightarrow> disk" where
  "saveProducts products fs =
     fs\<lparr>products_json := Some (Json products),
        io_log := io_log fs @ [WriteFile PRODUCTS_FILE]\<rparr>"

definition loadStats :: "disk \<Rightarrow> stats \<times> disk" where
  "loadStats fs =
     (let fs' = fs\<lparr>io_log := io_log fs @ [ReadFile STATS_FILE]\<rparr> in
      case readFileSync (stats_json fs) of
        Inl e \<Rightarrow> (\<lparr>visits = Number 0, s_rest = []\<rparr>, fs')
      | Inr data \<Rightarrow>
          (case JSON_parse data of
             Inl e \<Rightarrow> (\<lparr>visits = Number 0, s_rest = []\<rparr>, fs')
           | Inr v \<Rightarrow> (v, fs')))"

definition saveStats :: "stats \<Rightarrow> disk \<Rightarrow> disk" where
  "saveStats st fs =
     fs\<lparr>stats_json := Some (Json st),
        io_log := io_log fs @ [WriteFile STATS_FILE]\<rparr>"

section \<open>The id generator\<close>

text \<open>\<^verbatim>\<open>products.reduce((max, p) => Math.max(max, p.id || 0), 0) + 1\<close>\<close>

definition generateProductId :: "product list \<Rightarrow> int" where
  "generateProductId products =
     (let maxId = foldl (\<lambda>mx p. max mx (or_zero (p_id p))) 0 products
      in js_plus maxId 1)"

section \<open>Routes\<close>

datatype reply =
    ErrorBody string
  | MessageBody string
  | ProductBody product
  | ProductsBody "product list"
  | VisitsBody jsnum
  | StatsBody stats

record response =
  status :: nat
  payload :: reply

text \<open>\<^verbatim>\<open>Array.prototype.findIndex\<close>: the first index whose element satisfies the predicate,
  or \<open>-1\<close>.\<close>

fun findIndex :: "('a \<Rightarrow> bool) \<Rightarrow> 'a list \<Rightarrow> int" where
  "findIndex P [] = - 1"
| "findIndex P (x # xs) =
     (if P x then 0
      else (let i = findIndex P xs in if i = - 1 then - 1 else i + 1))"

text \<open>\<^verbatim>\<open>products.splice(i, 1)\<close>\<close>

definition splice1 :: "nat \<Rightarrow> 'a list \<Rightarrow> 'a list" where
  "splice1 i xs = take i xs @ drop (Suc i) xs"

definition missing_fields :: "body \<Rightarrow> bool" where
  "missing_fields b =
     (\<not> truthy (b_name b) \<or> \<not> truthy (b_description b) \<or>
      \<not> truthy (b_image b) \<or> \<not> truthy (b_alt b))"

text \<open>\<^verbatim>\<open>app.get('/api/products')\<close>\<close>

definition get_products :: "disk \<Rightarrow> response \<times> disk" where
  "get_products fs =
     (let (products, fs1) = loadProducts fs
      in (\<lparr>status = 200, payload = ProductsBody products\<rparr>, fs1))"

text \<open>\<^verbatim>\<open>app.post('/api/products')\<close>\<close>

definition post_products :: "body \<Rightarrow> disk \<Rightarrow> response \<times> disk" where
  "post_products b fs =
     (if missing_fields b
      then (\<lparr>status = 400, payload = ErrorBody ''Missing required fields''\<rparr>, fs)
      else
        (let (products, fs1) = loadProducts fs;
             newProduct = \<lparr>p_id = Number (generateProductId products),
                           p_name = b_name b,
                           p_description = b_description b,
                           p_image = b_image b,
                           p_alt = b_alt b,
                           p_rest = []\<rparr>;
             products' = products @ [newProduct];
             fs2 = saveProducts products' fs1
         in (\<lparr>status = 201, payload = ProductBody newProduct\<rparr>, fs2)))"

text \<open>\<^verbatim>\<open>app.put('/api/products/:id')\<close>\<close>

definition put_products ::
  "(string \<Rightarrow> number) \<Rightarrow> string \<Rightarrow> body \<Rightarrow> disk \<Rightarrow> response \<times> disk" where
  "put_products parseInt id_param b fs =
     (let productId = parseInt id_param in
      if missing_fields b
      then (\<lparr>status = 400, payload = ErrorBody ''Missing required fields''\<rparr>, fs)
      else
        (let (products, fs1) = loadProducts fs;
             productIndex = findIndex (\<lambda>p. strict_eq (p_id p) productId) products
         in if productIndex = - 1
            then (\<lparr>status = 404, payload = ErrorBody ''Product not found''\<rparr>, fs1)
            else
              (let products' = products[nat productIndex :=
                                  \<lparr>p_id = json_number productId,
                                   p_name = b_name b,
                                   p_description = b_description b,
                                   p_image = b_image b,
                                   p_alt = b_alt b,
                                   p_rest = []\<rparr>];
                   fs2 = saveProducts products' fs1
               in (\<lparr>status = 200, payload = ProductBody (products' ! nat productIndex)\<rparr>, fs2))))"

text \<open>\<^verbatim>\<open>app.delete('/api/products/:id')\<close>\<close>

definition delete_products ::
  "(string \<Rightarrow> number) \<Rightarrow> string \<Rightarrow> disk \<Rightarrow> response \<times> disk" where
  "delete_products parseInt id_param fs =
     (let productId = parseInt id_param;
          (products, fs1) = loadProducts fs;
          productIndex = findIndex (\<lambda>p. strict_eq (p_id p) productId) products
      in if productIndex = - 1
         then (\<lparr>status = 404, payload = ErrorBody ''Product not found''\<rparr>, fs1)
         else
           (let products' = splice1 (nat productIndex) products;
                fs2 = saveProducts products' fs1
            in (\<lparr>status = 200, payload = MessageBody ''Product deleted''\<rparr>, fs2)))"

text \<open>\<^verbatim>\<open>app.post('/api/stats/visit')\<close>\<close>

definition post_stats_visit :: "disk \<Rightarrow> response \<times> disk" where
  "post_stats_visit fs =
     (let (st, fs1) = loadStats fs;
          st' = st\<lparr>visits := Number (js_plus (or_zero (visits st)) 1)\<rparr>;
          fs2 = saveStats st' fs1
      in (\<lparr>status = 200, payload = VisitsBody (visits st')\<rparr>, fs2))"

text \<open>\<^verbatim>\<open>app.get('/api/stats')\<close>\<close>

definition get_stats :: "disk \<Rightarrow> response \<times> disk" where
  "get_stats fs =
     (let (st, fs1) = loadStats fs
      in (\<lparr>status = 200, payload = StatsBody st\<rparr>, fs1))"

subsection \<open>Requests in sequence\<close>

datatype request =
    GET_products
  | POST_products body
  | PUT_products string body
  | DELETE_products string
  | POST_stats_visit
  | GET_stats

fun handle :: "(string \<Rightarrow> number) \<Rightarrow> request \<Rightarrow> disk \<Rightarrow> response \<times> disk" where
  "handle parseInt GET_products fs = get_products fs"
| "handle parseInt (POST_products b) fs = post_products b fs"
| "handle parseInt (PUT_products i b) fs = put_products parseInt i b fs"
| "handle parseInt (DELETE_products i) fs = delete_products parseInt i fs"
| "handle parseInt POST_stats_visit fs = post_stats_visit fs"
| "handle parseInt GET_stats fs = get_stats fs"

text \<open>Requests handled one after the other, each to completion, with the responses in order.\<close>

fun serve ::
  "(string \<Rightarrow> number) \<Rightarrow> request list \<Rightarrow> disk \<Rightarrow> response list \<times> disk" where
  "serve parseInt [] fs = ([], fs)"
| "serve parseInt (r # rs) fs =
     (let (res, fs1) = handle parseInt r fs;
          (ress, fs2) = serve parseInt rs fs1
      in (res # ress, fs2))"

section \<open>Notions of the specification\<close>

text \<open>
  The specification's reading of the id generator, to be compared with
  \<open>generateProductId\<close>: the id of a record, with a missing or undefined id counted as 0;
  the largest id of a non-empty sequence; and that maximum plus one, or 1 for the empty
  sequence.
\<close>

fun id_or_0 :: "jsnum \<Rightarrow> int" where
  "id_or_0 (Number n) = n"
| "id_or_0 Undefined = 0"
| "id_or_0 Null = 0"

definition spec_max_id :: "product list \<Rightarrow> int" where
  "spec_max_id ps = Max (set (map (\<lambda>p. id_or_0 (p_id p)) ps))"

definition spec_nextId :: "product list \<Rightarrow> int" where
  "spec_nextId ps = (if ps = [] then 1 else spec_max_id ps + 1)"

text \<open>The invariant of the data model: no two records of the collection share an id.\<close>

definition unique_ids :: "product list \<Rightarrow> bool" where
  "unique_ids ps = distinct (map p_id ps)"

text \<open>The two error responses, and the data of the specification's concrete scenario.\<close>

abbreviation bad_request :: response where
  "bad_request \<equiv> \<lparr>status = 400, payload = ErrorBody ''Missing required fields''\<rparr>"

abbreviation not_found :: response where
  "not_found \<equiv> \<lparr>status = 404, payload = ErrorBody ''Product not found''\<rparr>"

abbreviation speaker :: body where
  "speaker \<equiv> \<lparr>b_name = Some (JStr ''Speaker''), b_description = Some (JStr ''Loud''),
              b_image = Some (JStr ''<data>''), b_alt = Some (JStr ''speaker'')\<rparr>"

abbreviation stored :: "int \<Rightarrow> product" where
  "stored n \<equiv> \<lparr>p_id = Number n, p_name = Some (JStr ''Speaker''),
               p_description = Some (JStr ''Loud''), p_image = Some (JStr ''<data>''),
               p_alt = Some (JStr ''speaker''), p_rest = []\<rparr>"

abbreviation fresh :: disk where
  "fresh \<equiv> \<lparr>products_json = None, stats_json = None, io_log = []\<rparr>"

abbreviation holding :: "product list \<Rightarrow> disk" where
  "holding ps \<equiv> \<lparr>products_json = Some (Json ps), stats_json = None, io_log = []\<rparr>"

text \<open>The record that Create and Update build from the body, the disk after one read of
  a file, the default of the stats, a second body, and a disk with a count of visits.\<close>

abbreviation entry :: "jsnum \<Rightarrow> body \<Rightarrow> product" where
  "entry n b \<equiv> \<lparr>p_id = n, p_name = b_name b, p_description = b_description b,
                 p_image = b_image b, p_alt = b_alt b, p_rest = []\<rparr>"

abbreviation read_products :: "disk \<Rightarrow> disk" where
  "read_products fs \<equiv> fs\<lparr>io_log := io_log fs @ [ReadFile PRODUCTS_FILE]\<rparr>"

abbreviation read_stats :: "disk \<Rightarrow> disk" where
  "read_stats fs \<equiv> fs\<lparr>io_log := io_log fs @ [ReadFile STATS_FILE]\<rparr>"

abbreviation no_visits :: stats where
  "no_visits \<equiv> \<lparr>visits = Number 0, s_rest = []\<rparr>"

abbreviation amp :: body where
  "amp \<equiv> \<lparr>b_name = Some (JStr ''Amp''), b_description = Some (JStr ''Warm''),
          b_image = Some (JStr ''<png>''), b_alt = Some (JStr ''amplifier'')\<rparr>"

abbreviation counting :: "int \<Rightarrow> disk" where
  "counting n \<equiv> \<lparr>products_json = None,
                  stats_json = Some (Json \<lparr>visits = Number n, s_rest = []\<rparr>), io_log = []\<rparr>"

text \<open>What \<^verbatim>\<open>parseInt\<close> returns on the paths of the examples.\<close>

definition paths :: "string \<Rightarrow> number" where
  "paths s = (if s = ''1'' then Finite 1 else if s = ''2'' then Finite 2
              else if s = ''3'' then Finite 3 else if s = ''7'' then Finite 7 else NaN)"

section \<open>Auxiliary facts\<close>

subsection \<open>Loading and saving\<close>

lemma loadProducts_eq:
  "loadProducts fs =
     (fst (loadProducts fs), fs\<lparr>io_log := io_log fs @ [ReadFile PRODUCTS_FILE]\<rparr>)"
  by (simp add: loadProducts_def readFileSync_def JSON_parse_def
           split: option.splits contents.splits)

lemma loadProducts_log_irrelevant:
  "fst (loadProducts (fs\<lparr>io_log := l\<rparr>)) = fst (loadProducts fs)"
  by (simp add: loadProducts_def readFileSync_def JSON_parse_def
           split: option.splits contents.splits)

lemma loadProducts_written:
  "fst (loadProducts (fs\<lparr>products_json := Some (Json ps), io_log := l\<rparr>)) = ps"
  by (simp add: loadProducts_def readFileSync_def JSON_parse_def)

lemma loadProducts_holding: "fst (loadProducts (holding ps)) = ps"
  by (simp add: loadProducts_def readFileSync_def JSON_parse_def)

lemma loadStats_eq:
  "loadStats fs =
     (fst (loadStats fs), fs\<lparr>io_log := io_log fs @ [ReadFile STATS_FILE]\<rparr>)"
  by (simp add: loadStats_def readFileSync_def JSON_parse_def
           split: option.splits contents.splits)

lemma loadStats_log_irrelevant:
  "fst (loadStats (fs\<lparr>io_log := l\<rparr>)) = fst (loadStats fs)"
  by (simp add: loadStats_def readFileSync_def JSON_parse_def
           split: option.splits contents.splits)

lemma loadStats_written:
  "fst (loadStats (fs\<lparr>stats_json := Some (Json st), io_log := l\<rparr>)) = st"
  by (simp add: loadStats_def readFileSync_def JSON_parse_def)

lemma loadStats_counting: "fst (loadStats (counting n)) = \<lparr>visits = Number n, s_rest = []\<rparr>"
  by (simp add: loadStats_def readFileSync_def JSON_parse_def)

lemma loadStats_depends_on_file:
  "stats_json fs' = stats_json fs \<Longrightarrow> fst (loadStats fs') = fst (loadStats fs)"
  by (simp add: loadStats_def readFileSync_def JSON_parse_def
           split: option.splits contents.splits)

subsection \<open>findIndex\<close>

lemma findIndex_ge: "- 1 \<le> findIndex P xs"
  by (induction xs) (auto simp: Let_def)

lemma findIndex_none: "findIndex P xs = - 1 \<longleftrightarrow> (\<forall>x \<in> set xs. \<not> P x)"
proof (induction xs)
  case Nil
  show ?case by simp
next
  case (Cons x xs)
  have "- 1 \<le> findIndex P xs" by (rule findIndex_ge)
  with Cons show ?case by (auto simp: Let_def)
qed

lemma findIndex_found:
  assumes "findIndex P xs \<noteq> - 1"
  shows "0 \<le> findIndex P xs \<and> nat (findIndex P xs) < length xs \<and>
         P (xs ! nat (findIndex P xs)) \<and> (\<forall>j < nat (findIndex P xs). \<not> P (xs ! j))"
  using assms
proof (induction xs)
  case Nil
  then show ?case by simp
next
  case (Cons x xs)
  show ?case
  proof (cases "P x")
    case True
    then show ?thesis by simp
  next
    case False
    with Cons.prems have ne: "findIndex P xs \<noteq> - 1"
      by (auto simp: Let_def split: if_splits)
    from Cons.IH [OF ne] have ih: "0 \<le> findIndex P xs" "nat (findIndex P xs) < length xs"
      "P (xs ! nat (findIndex P xs))" "\<forall>j < nat (findIndex P xs). \<not> P (xs ! j)"
      by auto
    have eq: "findIndex P (x # xs) = findIndex P xs + 1"
      using False ne by (simp add: Let_def)
    have n: "nat (findIndex P xs + 1) = Suc (nat (findIndex P xs))"
      using ih(1) by simp
    show ?thesis
      unfolding eq n using ih False
      by (auto simp: less_Suc_eq_0_disj)
  qed
qed

subsection \<open>Rounding\<close>

lemma bit_length_le: "m < 2 ^ k \<Longrightarrow> bit_length m \<le> k"
proof (induction k arbitrary: m)
  case 0
  then show ?case by (simp add: bit_length.simps)
next
  case (Suc k)
  show ?case
  proof (cases "m = 0")
    case True
    then show ?thesis by (simp add: bit_length.simps)
  next
    case False
    from Suc.prems have "m div 2 < 2 ^ k" by simp
    from Suc.IH [OF this] False show ?thesis
      by (subst bit_length.simps) simp
  qed
qed

lemma bit_length_power: "bit_length (2 ^ k) = Suc k"
proof (induction k)
  case 0
  show ?case by (simp add: bit_length.simps)
next
  case (Suc k)
  then show ?case by (subst bit_length.simps) simp
qed

lemma bit_length_numeral:
  "bit_length (numeral (Num.Bit0 k)) = Suc (bit_length (numeral k))"
  "bit_length (numeral (Num.Bit1 k)) = Suc (bit_length (numeral k))"
  "bit_length (numeral Num.One) = 1"
  "bit_length 1 = 1"
  "bit_length 0 = 0"
  "bit_length (Suc 0) = 1"
proof -
  show "bit_length (numeral (Num.Bit0 k)) = Suc (bit_length (numeral k))"
    by (subst bit_length.simps) simp
  show "bit_length (numeral (Num.Bit1 k)) = Suc (bit_length (numeral k))"
    by (subst bit_length.simps) simp
  show "bit_length 1 = 1"
    by (simp add: bit_length.simps)
  then show "bit_length (numeral Num.One) = 1"
    by simp
  show "bit_length 0 = 0"
    by (simp add: bit_length.simps)
  show "bit_length (Suc 0) = 1"
    by (simp add: bit_length.simps)
qed

text \<open>Up to \<open>2 ^ 53\<close> in magnitude every integer is a double, and rounding leaves it alone.\<close>

lemma round_double_exact:
  assumes "\<bar>x\<bar> \<le> 2 ^ 53"
  shows "round_double x = x"
proof (cases "\<bar>x\<bar> = 2 ^ 53")
  case True
  then have m: "nat \<bar>x\<bar> = 2 ^ 53"
    by (simp add: nat_power_eq)
  have e: "bit_length (2 ^ 53) - 53 = 1"
    by (simp only: bit_length_power)
  have "round_double x = sgn x * int (2 ^ 53)"
    unfolding round_double_def m e Let_def by simp
  also have "\<dots> = sgn x * \<bar>x\<bar>" using True by simp
  also have "\<dots> = x" by (simp add: mult_sgn_abs)
  finally show ?thesis .
next
  case False
  with assms have "nat \<bar>x\<bar> < 2 ^ 53"
    by (simp add: nat_less_iff)
  from bit_length_le [OF this] have e: "bit_length (nat \<bar>x\<bar>) - 53 = 0"
    by simp
  have "round_double x = sgn x * \<bar>x\<bar>"
    unfolding round_double_def Let_def e by simp
  then show ?thesis by (simp add: mult_sgn_abs)
qed

lemma js_plus_exact: "\<bar>a + b\<bar> \<le> 2 ^ 53 \<Longrightarrow> js_plus a b = a + b"
  by (simp add: js_plus_def round_double_exact)

text \<open>Beyond \<open>2 ^ 53\<close> the odd integers are no doubles: \<open>2 ^ 53 + 1\<close> is rounded to
  \<open>2 ^ 53\<close>.\<close>

lemma js_plus_2_53: "js_plus 9007199254740992 1 = 9007199254740992"
  by (simp add: js_plus_def round_double_def bit_length_numeral Let_def)

subsection \<open>The running maximum\<close>

lemma maxId_fold: "foldl (\<lambda>mx p. max mx (f p)) a ps = Max (insert a (f ` set ps))"
proof (induction ps arbitrary: a)
  case Nil
  show ?case by simp
next
  case (Cons p ps)
  have "foldl (\<lambda>mx p. max mx (f p)) a (p # ps) = Max (insert (max a (f p)) (f ` set ps))"
    by (simp add: Cons.IH)
  also have "\<dots> = Max (insert a (f ` set (p # ps)))"
  proof (cases "ps = []")
    case True
    then show ?thesis by (simp add: max.commute)
  next
    case False
    then have ne: "f ` set ps \<noteq> {}" by simp
    have fin: "finite (f ` set ps)" by simp
    show ?thesis
      using ne fin by (simp add: max.assoc)
  qed
  finally show ?case .
qed

subsection \<open>Truthiness and the id values\<close>

lemma falsy_values:
  "\<not> truthy v \<longleftrightarrow>
     v \<in> {None, Some JNull, Some (JBool False), Some (JNum 0), Some (JStr '''')}"
  by (cases v rule: truthy.cases) auto

lemma missing_fields_iff:
  "missing_fields b \<longleftrightarrow>
     \<not> (truthy (b_name b) \<and> truthy (b_description b) \<and> truthy (b_image b) \<and> truthy (b_alt b))"
  by (auto simp: missing_fields_def)

lemma or_zero_id_or_0: "or_zero v = id_or_0 v"
  by (cases v) auto

lemma generateProductId_Max:
  "generateProductId ps = js_plus (Max (insert 0 ((\<lambda>p. id_or_0 (p_id p)) ` set ps))) 1"
  by (simp add: generateProductId_def maxId_fold or_zero_id_or_0)

lemma generateProductId_Nil: "generateProductId [] = 1"
  by (simp add: generateProductId_def js_plus_exact)

lemma generateProductId_spec:
  assumes "ps \<noteq> []"
  shows "generateProductId ps = js_plus (max 0 (spec_max_id ps)) 1"
proof -
  from assms have "Max (insert 0 ((\<lambda>p. id_or_0 (p_id p)) ` set ps)) = max 0 (spec_max_id ps)"
    by (simp add: spec_max_id_def)
  then show ?thesis by (simp add: generateProductId_Max)
qed

lemma generateProductId_exact:
  assumes "\<forall>p \<in> set ps. id_or_0 (p_id p) < 2 ^ 53"
  shows "generateProductId ps = Max (insert 0 ((\<lambda>p. id_or_0 (p_id p)) ` set ps)) + 1"
proof -
  let ?M = "Max (insert 0 ((\<lambda>p. id_or_0 (p_id p)) ` set ps))"
  have lo: "0 \<le> ?M"
    by (intro Max_ge) auto
  have hi: "?M < 2 ^ 53"
    using assms by (subst Max_less_iff) auto
  from lo hi have "\<bar>?M + 1\<bar> \<le> 2 ^ 53"
    by linarith
  then have "js_plus ?M 1 = ?M + 1"
    by (rule js_plus_exact)
  then show ?thesis
    by (simp only: generateProductId_Max)
qed

subsection \<open>What each handler returns\<close>

lemma strict_eq_number: "strict_eq a b \<Longrightarrow> \<exists>n. a = Number n \<and> b = Finite n"
  by (cases a; cases b) auto

lemma post_products_ok:
  assumes "\<not> missing_fields b"
  shows "post_products b fs =
           (\<lparr>status = 201, payload = ProductBody (entry (Number (generateProductId (fst (loadProducts fs)))) b)\<rparr>,
            fs\<lparr>products_json := Some (Json (fst (loadProducts fs) @
                    [entry (Number (generateProductId (fst (loadProducts fs)))) b])),
               io_log := io_log fs @ [ReadFile PRODUCTS_FILE, WriteFile PRODUCTS_FILE]\<rparr>)"
proof -
  obtain ps where l: "loadProducts fs = (ps, read_products fs)"
    using loadProducts_eq [of fs] by blast
  show ?thesis
    using assms by (simp add: post_products_def l saveProducts_def Let_def)
qed

lemma put_products_missing:
  assumes "\<not> missing_fields b"
      and "\<forall>p \<in> set (fst (loadProducts fs)). \<not> strict_eq (p_id p) (parseInt i)"
  shows "put_products parseInt i b fs = (not_found, read_products fs)"
proof -
  obtain ps where l: "loadProducts fs = (ps, read_products fs)"
    using loadProducts_eq [of fs] by blast
  with assms(2) have "findIndex (\<lambda>p. strict_eq (p_id p) (parseInt i)) ps = - 1"
    by (simp add: findIndex_none)
  then show ?thesis
    using assms(1) by (simp add: put_products_def l Let_def)
qed

lemma delete_products_missing:
  assumes "\<forall>p \<in> set (fst (loadProducts fs)). \<not> strict_eq (p_id p) (parseInt i)"
  shows "delete_products parseInt i fs = (not_found, read_products fs)"
proof -
  obtain ps where l: "loadProducts fs = (ps, read_products fs)"
    using loadProducts_eq [of fs] by blast
  with assms have "findIndex (\<lambda>p. strict_eq (p_id p) (parseInt i)) ps = - 1"
    by (simp add: findIndex_none)
  then show ?thesis
    by (simp add: delete_products_def l Let_def)
qed

lemma put_products_found:
  assumes "\<not> missing_fields b"
      and "findIndex (\<lambda>p. strict_eq (p_id p) (parseInt i)) (fst (loadProducts fs)) \<noteq> - 1"
  shows "put_products parseInt i b fs =
           (\<lparr>status = 200, payload = ProductBody (entry (json_number (parseInt i)) b)\<rparr>,
            fs\<lparr>products_json := Some (Json ((fst (loadProducts fs))
                    [nat (findIndex (\<lambda>p. strict_eq (p_id p) (parseInt i)) (fst (loadProducts fs)))
                       := entry (json_number (parseInt i)) b])),
               io_log := io_log fs @ [ReadFile PRODUCTS_FILE, WriteFile PRODUCTS_FILE]\<rparr>)"
proof -
  obtain ps where l: "loadProducts fs = (ps, read_products fs)"
    using loadProducts_eq [of fs] by blast
  from assms(2) l have ne: "findIndex (\<lambda>p. strict_eq (p_id p) (parseInt i)) ps \<noteq> - 1"
    by simp
  from findIndex_found [OF ne] have "nat (findIndex (\<lambda>p. strict_eq (p_id p) (parseInt i)) ps) < length ps"
    by simp
  then show ?thesis
    using assms(1) ne by (simp add: put_products_def l saveProducts_def Let_def)
qed

lemma delete_products_found:
  assumes "findIndex (\<lambda>p. strict_eq (p_id p) (parseInt i)) (fst (loadProducts fs)) \<noteq> - 1"
  shows "delete_products parseInt i fs =
           (\<lparr>status = 200, payload = MessageBody ''Product deleted''\<rparr>,
            fs\<lparr>products_json := Some (Json (splice1
                    (nat (findIndex (\<lambda>p. strict_eq (p_id p) (parseInt i)) (fst (loadProducts fs))))
                    (fst (loadProducts fs)))),
               io_log := io_log fs @ [ReadFile PRODUCTS_FILE, WriteFile PRODUCTS_FILE]\<rparr>)"
proof -
  obtain ps where l: "loadProducts fs = (ps, read_products fs)"
    using loadProducts_eq [of fs] by blast
  from assms l have ne: "findIndex (\<lambda>p. strict_eq (p_id p) (parseInt i)) ps \<noteq> - 1"
    by simp
  then show ?thesis
    by (simp add: delete_products_def l saveProducts_def Let_def)
qed

lemma get_products_eq:
  "get_products fs = (\<lparr>status = 200, payload = ProductsBody (fst (loadProducts fs))\<rparr>, read_products fs)"
proof -
  obtain ps where l: "loadProducts fs = (ps, read_products fs)"
    using loadProducts_eq [of fs] by blast
  show ?thesis by (simp add: get_products_def l)
qed

lemma get_stats_eq:
  "get_stats fs = (\<lparr>status = 200, payload = StatsBody (fst (loadStats fs))\<rparr>, read_stats fs)"
proof -
  obtain st where l: "loadStats fs = (st, read_stats fs)"
    using loadStats_eq [of fs] by blast
  show ?thesis by (simp add: get_stats_def l)
qed

lemma post_stats_visit_eq:
  "post_stats_visit fs =
     (\<lparr>status = 200,
       payload = VisitsBody (Number (js_plus (or_zero (visits (fst (loadStats fs)))) 1))\<rparr>,
      fs\<lparr>stats_json := Some (Json ((fst (loadStats fs))
               \<lparr>visits := Number (js_plus (or_zero (visits (fst (loadStats fs)))) 1)\<rparr>)),
         io_log := io_log fs @ [ReadFile STATS_FILE, WriteFile STATS_FILE]\<rparr>)"
proof -
  obtain st where l: "loadStats fs = (st, read_stats fs)"
    using loadStats_eq [of fs] by blast
  show ?thesis by (simp add: post_stats_visit_def l saveStats_def Let_def)
qed

subsection \<open>Fresh ids and removal\<close>

lemma generateProductId_fresh:
  assumes "\<forall>p \<in> set ps. id_or_0 (p_id p) < 2 ^ 53"
  shows "Number (generateProductId ps) \<notin> set (map p_id ps)"
proof
  assume "Number (generateProductId ps) \<in> set (map p_id ps)"
  then obtain p where p: "p \<in> set ps" and eq: "p_id p = Number (generateProductId ps)"
    by auto
  have "id_or_0 (p_id p) \<le> Max (insert 0 ((\<lambda>p. id_or_0 (p_id p)) ` set ps))"
    using p by (intro Max_ge) auto
  then have "id_or_0 (p_id p) < generateProductId ps"
    by (simp add: generateProductId_exact [OF assms])
  with eq show False by simp
qed

lemma distinct_splice1:
  assumes "distinct xs"
  shows "distinct (splice1 k xs)"
proof -
  have "distinct (take k xs @ drop k xs)"
    using assms by simp
  then have disj: "set (take k xs) \<inter> set (drop k xs) = {}"
    by (simp only: distinct_append)
  have "set (drop (Suc k) xs) \<subseteq> set (drop k xs)"
    by (rule set_drop_subset_set_drop) simp
  with disj have "set (take k xs) \<inter> set (drop (Suc k) xs) = {}"
    by blast
  then show ?thesis
    using assms by (simp add: splice1_def)
qed

lemma map_splice1: "map f (splice1 k xs) = splice1 k (map f xs)"
  by (simp add: splice1_def take_map drop_map)

lemma post_products_stored:
  "fst (loadProducts (snd (post_products b fs))) =
     (if missing_fields b then fst (loadProducts fs)
      else fst (loadProducts fs) @ [entry (Number (generateProductId (fst (loadProducts fs)))) b])"
proof (cases "missing_fields b")
  case True
  then show ?thesis by (simp add: post_products_def)
next
  case False
  then show ?thesis
    by (simp add: post_products_ok [OF False] loadProducts_written)
qed

lemma put_products_ids:
  "map p_id (fst (loadProducts (snd (put_products parseInt i b fs))))
     = map p_id (fst (loadProducts fs))"
proof -
  let ?ps = "fst (loadProducts fs)"
  let ?P = "\<lambda>p. strict_eq (p_id p) (parseInt i)"
  show ?thesis
  proof (cases "missing_fields b")
    case True
    then show ?thesis by (simp add: put_products_def)
  next
    case False
    show ?thesis
    proof (cases "findIndex ?P ?ps = - 1")
      case True
      then have "\<forall>p \<in> set ?ps. \<not> ?P p" by (simp add: findIndex_none)
      from put_products_missing [where parseInt = parseInt and i = i, OF False this] show ?thesis
        by (simp add: loadProducts_log_irrelevant)
    next
      case ne: False
      from findIndex_found [OF ne]
      have k: "nat (findIndex ?P ?ps) < length ?ps" and hit: "?P (?ps ! nat (findIndex ?P ?ps))"
        by auto
      from strict_eq_number [OF hit]
      have "p_id (?ps ! nat (findIndex ?P ?ps)) = json_number (parseInt i)" by auto
      then have "(map p_id ?ps)[nat (findIndex ?P ?ps) := json_number (parseInt i)] = map p_id ?ps"
        using k by (metis list_update_id nth_map)
      then show ?thesis
        by (simp add: put_products_found [where parseInt = parseInt and i = i, OF False ne]
              loadProducts_written map_update)
    qed
  qed
qed

lemma delete_products_result:
  "fst (loadProducts (snd (delete_products parseInt i fs))) = fst (loadProducts fs) \<or>
     (\<exists>k < length (fst (loadProducts fs)).
        fst (loadProducts (snd (delete_products parseInt i fs))) = splice1 k (fst (loadProducts fs)))"
proof (cases "findIndex (\<lambda>p. strict_eq (p_id p) (parseInt i)) (fst (loadProducts fs)) = - 1")
  case True
  then have "\<forall>p \<in> set (fst (loadProducts fs)). \<not> strict_eq (p_id p) (parseInt i)"
    by (simp add: findIndex_none)
  from delete_products_missing [where parseInt = parseInt and i = i, OF this] show ?thesis
    by (simp add: loadProducts_log_irrelevant)
next
  case ne: False
  from findIndex_found [OF ne]
  have "nat (findIndex (\<lambda>p. strict_eq (p_id p) (parseInt i)) (fst (loadProducts fs)))
          < length (fst (loadProducts fs))"
    by simp
  then show ?thesis
    by (auto simp: delete_products_found [where parseInt = parseInt and i = i, OF ne]
          loadProducts_written)
qed

subsection \<open>Repeated requests\<close>

lemma serve_Cons:
  "serve parseInt (r # rs) fs =
     (fst (handle parseInt r fs) # fst (serve parseInt rs (snd (handle parseInt r fs))),
      snd (serve parseInt rs (snd (handle parseInt r fs))))"
  by (simp add: split_beta)

lemma serve_visits:
  "- (2 ^ 53) \<le> or_zero (visits (fst (loadStats fs))) \<Longrightarrow>
   or_zero (visits (fst (loadStats fs))) + int n \<le> 2 ^ 53 \<Longrightarrow>
   fst (serve parseInt (replicate n POST_stats_visit) fs) =
     map (\<lambda>k. \<lparr>status = 200,
                payload = VisitsBody (Number (or_zero (visits (fst (loadStats fs))) + int k + 1))\<rparr>)
       [0..<n] \<and>
   or_zero (visits (fst (loadStats (snd (serve parseInt (replicate n POST_stats_visit) fs)))))
     = or_zero (visits (fst (loadStats fs))) + int n"
proof (induction n arbitrary: fs)
  case 0
  show ?case by simp
next
  case (Suc n)
  let ?v = "or_zero (visits (fst (loadStats fs)))"
  let ?fs1 = "fs\<lparr>stats_json := Some (Json ((fst (loadStats fs))\<lparr>visits := Number (?v + 1)\<rparr>)),
                io_log := io_log fs @ [ReadFile STATS_FILE, WriteFile STATS_FILE]\<rparr>"
  from Suc.prems have "\<bar>?v + 1\<bar> \<le> 2 ^ 53"
    by simp
  then have plus: "js_plus ?v 1 = ?v + 1"
    by (rule js_plus_exact)
  have step: "post_stats_visit fs = (\<lparr>status = 200, payload = VisitsBody (Number (?v + 1))\<rparr>, ?fs1)"
    by (simp add: post_stats_visit_eq plus)
  have v1: "or_zero (visits (fst (loadStats ?fs1))) = ?v + 1"
    by (simp add: loadStats_written)
  have lo: "- (2 ^ 53) \<le> or_zero (visits (fst (loadStats ?fs1)))"
    unfolding v1 using Suc.prems by simp
  have hi: "or_zero (visits (fst (loadStats ?fs1))) + int n \<le> 2 ^ 53"
    unfolding v1 using Suc.prems by simp
  note ih = Suc.IH [OF lo hi, unfolded v1]
  have sv: "serve parseInt (replicate (Suc n) POST_stats_visit) fs =
      (\<lparr>status = 200, payload = VisitsBody (Number (?v + 1))\<rparr>
         # fst (serve parseInt (replicate n POST_stats_visit) ?fs1),
       snd (serve parseInt (replicate n POST_stats_visit) ?fs1))"
    by (simp add: step split: prod.splits)
  have upt: "[0..<Suc n] = 0 # map Suc [0..<n]"
    by (simp only: map_Suc_upt upt_conv_Cons zero_less_Suc if_True)
  have shift: "map (\<lambda>k. \<lparr>status = 200, payload = VisitsBody (Number (?v + int k + 1))\<rparr>) (map Suc [0..<n])
      = map (\<lambda>k. \<lparr>status = 200, payload = VisitsBody (Number (?v + 1 + int k + 1))\<rparr>) [0..<n]"
    by simp
  have "fst (serve parseInt (replicate (Suc n) POST_stats_visit) fs) =
     map (\<lambda>k. \<lparr>status = 200, payload = VisitsBody (Number (?v + int k + 1))\<rparr>) [0..<Suc n]"
    unfolding sv upt using ih by (simp only: fst_conv list.map shift) simp
  moreover have "or_zero (visits (fst (loadStats (snd (serve parseInt (replicate (Suc n) POST_stats_visit) fs)))))
     = ?v + int (Suc n)"
    unfolding sv using ih by simp
  ultimately show ?case by blast
qed

lemma serve_get_stats:
  "serve parseInt (replicate n GET_stats) fs =
     (replicate n \<lparr>status = 200, payload = StatsBody (fst (loadStats fs))\<rparr>,
      fs\<lparr>io_log := io_log fs @ replicate n (ReadFile STATS_FILE)\<rparr>)"
proof (induction n arbitrary: fs)
  case 0
  show ?case by simp
next
  case (Suc n)
  have "serve parseInt (replicate (Suc n) GET_stats) fs =
      (\<lparr>status = 200, payload = StatsBody (fst (loadStats fs))\<rparr>
         # fst (serve parseInt (replicate n GET_stats) (read_stats fs)),
       snd (serve parseInt (replicate n GET_stats) (read_stats fs)))"
    by (simp add: get_stats_eq split: prod.splits)
  then show ?case
    by (simp add: Suc.IH loadStats_log_irrelevant replicate_append_same)
qed

lemma handle_keeps_stats_json:
  assumes "r \<noteq> POST_stats_visit"
  shows "stats_json (snd (handle parseInt r fs)) = stats_json fs"
proof -
  obtain ps where l: "loadProducts fs = (ps, read_products fs)"
    using loadProducts_eq [of fs] by blast
  show ?thesis
  proof (cases r)
    case GET_products
    then show ?thesis by (simp add: get_products_eq)
  next
    case (POST_products b)
    then show ?thesis by (simp add: post_products_def l saveProducts_def Let_def)
  next
    case (PUT_products i b)
    then show ?thesis by (simp add: put_products_def l saveProducts_def Let_def)
  next
    case (DELETE_products i)
    then show ?thesis by (simp add: delete_products_def l saveProducts_def Let_def)
  next
    case POST_stats_visit
    with assms show ?thesis by simp
  next
    case GET_stats
    then show ?thesis by (simp add: get_stats_eq)
  qed
qed

lemma serve_without_visits:
  assumes "POST_stats_visit \<notin> set rs"
  shows "stats_json (snd (serve parseInt rs fs)) = stats_json fs \<and>
         length (fst (serve parseInt rs fs)) = length rs \<and>
         (\<forall>k < length rs. rs ! k = GET_stats \<longrightarrow>
            fst (serve parseInt rs fs) ! k
              = \<lparr>status = 200, payload = StatsBody (fst (loadStats fs))\<rparr>)"
  using assms
proof (induction rs arbitrary: fs)
  case Nil
  show ?case by simp
next
  case (Cons r rs)
  let ?fs1 = "snd (handle parseInt r fs)"
  from Cons.prems have r: "r \<noteq> POST_stats_visit" and rs: "POST_stats_visit \<notin> set rs"
    by auto
  have keep: "stats_json ?fs1 = stats_json fs"
    by (rule handle_keeps_stats_json [OF r])
  have same: "fst (loadStats ?fs1) = fst (loadStats fs)"
    by (rule loadStats_depends_on_file [OF keep])
  note ih = Cons.IH [OF rs, of ?fs1, unfolded keep same]
  have "fst (serve parseInt (r # rs) fs) ! k
          = \<lparr>status = 200, payload = StatsBody (fst (loadStats fs))\<rparr>"
    if "k < length (r # rs)" and "(r # rs) ! k = GET_stats" for k
  proof (cases k)
    case 0
    with that have "r = GET_stats" by simp
    then show ?thesis using 0 by (simp add: serve_Cons get_stats_eq del: serve.simps)
  next
    case (Suc j)
    with that have "j < length rs" and "rs ! j = GET_stats" by simp_all
    with ih show ?thesis using Suc by (simp add: serve_Cons del: serve.simps)
  qed
  with ih show ?case
    by (simp add: serve_Cons del: serve.simps)
qed

lemma post_then_get:
  assumes "\<not> missing_fields b"
  shows "fst (serve parseInt [POST_products b, GET_products] fs) =
           [\<lparr>status = 201,
             payload = ProductBody (entry (Number (generateProductId (fst (loadProducts fs)))) b)\<rparr>,
            \<lparr>status = 200,
             payload = ProductsBody (fst (loadProducts fs) @
                    [entry (Number (generateProductId (fst (loadProducts fs)))) b])\<rparr>]"
  by (simp add: post_products_ok [OF assms] get_products_eq loadProducts_written)


lemma next_below_2_53:
  fixes x :: int
  assumes "x < 2 ^ 53"
  shows "\<bar>max 0 x + 1\<bar> \<le> 2 ^ 53"
proof (cases "0 \<le> x")
  case True
  with assms show ?thesis by (simp add: max_def)
next
  case False
  then show ?thesis by (simp add: max_def)
qed

lemma generateProductId_below:
  assumes "ps \<noteq> []" and "spec_max_id ps < 2 ^ 53"
  shows "generateProductId ps = max 0 (spec_max_id ps) + 1"
proof -
  from assms(2) have "\<bar>max 0 (spec_max_id ps) + 1\<bar> \<le> 2 ^ 53"
    by (rule next_below_2_53)
  then have "js_plus (max 0 (spec_max_id ps)) 1 = max 0 (spec_max_id ps) + 1"
    by (rule js_plus_exact)
  with generateProductId_spec [OF assms(1)] show ?thesis
    by simp
qed

text \<open>A path whose digits are no double: \<^verbatim>\<open>parseInt\<close> rounds \<^verbatim>\<open>9007199254740993\<close> to
  \<open>2 ^ 53\<close>, and Delete then finds and removes the stored record of id \<open>2 ^ 53\<close>.\<close>

lemma delete_products_rounded_path:
  assumes "parseInt ''9007199254740993'' = Finite 9007199254740992"
  shows "delete_products parseInt ''9007199254740993'' (holding [stored 9007199254740992]) =
           (\<lparr>status = 200, payload = MessageBody ''Product deleted''\<rparr>,
            \<lparr>products_json = Some (Json []), stats_json = None,
             io_log = [ReadFile PRODUCTS_FILE, WriteFile PRODUCTS_FILE]\<rparr>)"
  by (simp add: delete_products_def loadProducts_def readFileSync_def JSON_parse_def
        saveProducts_def splice1_def assms Let_def)
section \<open>The claims\<close>

subsection \<open>C1: Create\<close>

text \<open>
  C1, as amended. For every body whose four fields \<^verbatim>\<open>name\<close>, \<^verbatim>\<open>description\<close>, \<^verbatim>\<open>image\<close>,
  \<^verbatim>\<open>alt\<close> are all truthy, Create reads the current collection, appends the record
  \<^verbatim>\<open>{id, name, description, image, alt}\<close> whose id is the result of the id generator,
  writes the collection back and answers 201 with the created record. Create followed by
  List therefore yields the prior collection followed by exactly that one new record. Its
  id is 1 when the collection was empty. Otherwise it is the sum, as a double, of 1 and
  the larger of 0 and the previous maximum id: one more than the larger of 0 and that
  maximum whenever the maximum is below \<open>2 ^ 53\<close>.
\<close>

theorem create_then_list:
  assumes "truthy (b_name b)" and "truthy (b_description b)"
      and "truthy (b_image b)" and "truthy (b_alt b)"
  shows "post_products b fs =
           (\<lparr>status = 201,
             payload = ProductBody (entry (Number (generateProductId (fst (loadProducts fs)))) b)\<rparr>,
            fs\<lparr>products_json := Some (Json (fst (loadProducts fs) @
                    [entry (Number (generateProductId (fst (loadProducts fs)))) b])),
               io_log := io_log fs @ [ReadFile PRODUCTS_FILE, WriteFile PRODUCTS_FILE]\<rparr>) \<and>
         fst (serve parseInt [POST_products b, GET_products] fs) =
           [\<lparr>status = 201,
             payload = ProductBody (entry (Number (generateProductId (fst (loadProducts fs)))) b)\<rparr>,
            \<lparr>status = 200,
             payload = ProductsBody (fst (loadProducts fs) @
                    [entry (Number (generateProductId (fst (loadProducts fs)))) b])\<rparr>] \<and>
         (fst (loadProducts fs) = [] \<longrightarrow> generateProductId (fst (loadProducts fs)) = 1) \<and>
         (fst (loadProducts fs) \<noteq> [] \<longrightarrow>
            generateProductId (fst (loadProducts fs))
              = js_plus (max 0 (spec_max_id (fst (loadProducts fs)))) 1) \<and>
         (fst (loadProducts fs) \<noteq> [] \<and> spec_max_id (fst (loadProducts fs)) < 2 ^ 53 \<longrightarrow>
            generateProductId (fst (loadProducts fs))
              = max 0 (spec_max_id (fst (loadProducts fs))) + 1)"
proof -
  let ?ps = "fst (loadProducts fs)"
  from assms have m: "\<not> missing_fields b"
    by (simp add: missing_fields_def)
  note post = post_products_ok [OF m, of fs]
  note list = post_then_get [OF m, of parseInt fs]
  have gen0: "?ps = [] \<longrightarrow> generateProductId ?ps = 1"
    by (simp add: generateProductId_Nil)
  have gen1: "?ps \<noteq> [] \<longrightarrow> generateProductId ?ps = js_plus (max 0 (spec_max_id ?ps)) 1"
    by (simp add: generateProductId_spec)
  have gen2: "?ps \<noteq> [] \<and> spec_max_id ?ps < 2 ^ 53 \<longrightarrow>
      generateProductId ?ps = max 0 (spec_max_id ?ps) + 1"
    by (simp add: generateProductId_below)
  from post list gen0 gen1 gen2 show ?thesis by blast
qed

theorem create_then_list_witness:
  "truthy (b_name speaker) \<and> truthy (b_description speaker) \<and>
   truthy (b_image speaker) \<and> truthy (b_alt speaker) \<and>
   fst (loadProducts (holding [stored 1, stored 4])) = [stored 1, stored 4] \<and>
   spec_max_id [stored 1, stored 4] < 2 ^ 53 \<and>
   fst (serve paths [POST_products speaker, GET_products] (holding [stored 1, stored 4])) =
     [\<lparr>status = 201, payload = ProductBody (stored 5)\<rparr>,
      \<lparr>status = 200, payload = ProductsBody [stored 1, stored 4, stored 5]\<rparr>] \<and>
   fst (loadProducts fresh) = [] \<and>
   fst (serve paths [POST_products speaker, GET_products] fresh) =
     [\<lparr>status = 201, payload = ProductBody (stored 1)\<rparr>,
      \<lparr>status = 200, payload = ProductsBody [stored 1]\<rparr>]"
proof -
  have l: "fst (loadProducts (holding [stored 1, stored 4])) = [stored 1, stored 4]"
    by (rule loadProducts_holding)
  have l0: "fst (loadProducts fresh) = []"
    by (simp add: loadProducts_def readFileSync_def JSON_parse_def)
  have s: "spec_max_id [stored 1, stored 4] < 2 ^ 53"
    by (simp add: spec_max_id_def)
  have t: "truthy (b_name speaker)" "truthy (b_description speaker)"
      "truthy (b_image speaker)" "truthy (b_alt speaker)"
    by simp_all
  note c1 = create_then_list [OF t, where fs = "holding [stored 1, stored 4]" and parseInt = paths,
      unfolded l]
  from c1 s have g: "generateProductId [stored 1, stored 4] = 5"
    by (simp add: spec_max_id_def)
  note c0 = create_then_list [OF t, where fs = fresh and parseInt = paths, unfolded l0]
  from c0 have g0: "generateProductId [] = 1"
    by simp
  from c1 have c: "fst (serve paths [POST_products speaker, GET_products] (holding [stored 1, stored 4])) =
     [\<lparr>status = 201, payload = ProductBody (stored 5)\<rparr>,
      \<lparr>status = 200, payload = ProductsBody [stored 1, stored 4, stored 5]\<rparr>]"
    unfolding g by (simp del: serve.simps)
  from c0 have c': "fst (serve paths [POST_products speaker, GET_products] fresh) =
     [\<lparr>status = 201, payload = ProductBody (stored 1)\<rparr>,
      \<lparr>status = 200, payload = ProductsBody [stored 1]\<rparr>]"
    unfolding g0 by (simp del: serve.simps)
  from t l l0 s c c' show ?thesis by blast
qed

text \<open>Where the claim as stated fails. With one stored record of id \<open>-5\<close>, the record
  that Create adds has id 1, not \<open>-4\<close>: the running maximum starts at 0. With one stored
  record of id \<open>2 ^ 53\<close>, the record that Create adds has id \<open>2 ^ 53\<close> again: the sum
  \<open>2 ^ 53 + 1\<close> is no double.\<close>

theorem create_then_list_counterexample:
  "truthy (b_name speaker) \<and> truthy (b_description speaker) \<and>
   truthy (b_image speaker) \<and> truthy (b_alt speaker) \<and>
   fst (serve paths [POST_products speaker, GET_products] (holding [stored (- 5)])) =
     [\<lparr>status = 201, payload = ProductBody (stored 1)\<rparr>,
      \<lparr>status = 200, payload = ProductsBody [stored (- 5), stored 1]\<rparr>] \<and>
   spec_max_id [stored (- 5)] = - 5 \<and>
   p_id (stored 1) \<noteq> Number (spec_max_id [stored (- 5)] + 1) \<and>
   fst (serve paths [POST_products speaker, GET_products] (holding [stored 9007199254740992])) =
     [\<lparr>status = 201, payload = ProductBody (stored 9007199254740992)\<rparr>,
      \<lparr>status = 200,
       payload = ProductsBody [stored 9007199254740992, stored 9007199254740992]\<rparr>] \<and>
   spec_max_id [stored 9007199254740992] = 9007199254740992 \<and>
   p_id (stored 9007199254740992) \<noteq> Number (spec_max_id [stored 9007199254740992] + 1)"
proof -
  have m: "\<not> missing_fields speaker"
    by (simp add: missing_fields_def)
  have g: "generateProductId [stored (- 5)] = 1"
    by (simp add: generateProductId_def js_plus_exact)
  have g': "generateProductId [stored 9007199254740992] = 9007199254740992"
    by (simp add: generateProductId_def js_plus_2_53)
  have a: "fst (serve paths [POST_products speaker, GET_products] (holding [stored (- 5)])) =
     [\<lparr>status = 201, payload = ProductBody (stored 1)\<rparr>,
      \<lparr>status = 200, payload = ProductsBody [stored (- 5), stored 1]\<rparr>]"
    by (simp add: post_then_get [OF m] loadProducts_holding g del: serve.simps)
  have b: "fst (serve paths [POST_products speaker, GET_products]
                 (holding [stored 9007199254740992])) =
     [\<lparr>status = 201, payload = ProductBody (stored 9007199254740992)\<rparr>,
      \<lparr>status = 200,
       payload = ProductsBody [stored 9007199254740992, stored 9007199254740992]\<rparr>]"
    by (simp add: post_then_get [OF m] loadProducts_holding g' del: serve.simps)
  have s: "spec_max_id [stored (- 5)] = - 5"
      "spec_max_id [stored 9007199254740992] = 9007199254740992"
    by (simp_all add: spec_max_id_def)
  show ?thesis
    unfolding s using a b by simp
qed

subsection \<open>C2: validation failure\<close>

text \<open>
  C2. For Create and for Update alike: when one of the four fields \<^verbatim>\<open>name\<close>,
  \<^verbatim>\<open>description\<close>, \<^verbatim>\<open>image\<close>, \<^verbatim>\<open>alt\<close> of the body is absent or falsy (by \<open>falsy_values\<close>:
  undefined, null, false, zero or the empty string), the response is 400 with the message
  of the validation error, and the disk is returned as it was: the stored collection is
  unchanged and no file operation took place.
\<close>

theorem validation_error_no_write:
  assumes "v \<in> {b_name b, b_description b, b_image b, b_alt b}"
      and "\<not> truthy v"
  shows "post_products b fs = (bad_request, fs) \<and>
         put_products parseInt i b fs = (bad_request, fs)"
proof -
  from assms have "missing_fields b"
    by (auto simp: missing_fields_def)
  then show ?thesis
    by (simp add: post_products_def put_products_def)
qed

theorem validation_error_no_write_witness:
  "Some (JStr '''') \<in> {b_name (speaker\<lparr>b_alt := Some (JStr '''')\<rparr>),
       b_description (speaker\<lparr>b_alt := Some (JStr '''')\<rparr>),
       b_image (speaker\<lparr>b_alt := Some (JStr '''')\<rparr>),
       b_alt (speaker\<lparr>b_alt := Some (JStr '''')\<rparr>)} \<and>
   \<not> truthy (Some (JStr '''')) \<and>
   post_products (speaker\<lparr>b_alt := Some (JStr '''')\<rparr>) (holding [stored 1])
     = (bad_request, holding [stored 1]) \<and>
   put_products paths ''1'' (speaker\<lparr>b_alt := Some (JStr '''')\<rparr>) (holding [stored 1])
     = (bad_request, holding [stored 1])"
  using validation_error_no_write [where v = "Some (JStr '''')"
      and b = "speaker\<lparr>b_alt := Some (JStr '''')\<rparr>" and fs = "holding [stored 1]"
      and parseInt = paths and i = "''1''"]
  by simp

subsection \<open>C3: unknown ids\<close>

text \<open>
  C3. When the id of the path, as \<^verbatim>\<open>parseInt\<close> reads it, is strictly equal to the id of no
  stored product, Update (with all four fields truthy) and Delete both answer 404 with the
  message of the lookup failure. The only file operation is the one read of the product
  file: nothing is saved, and the stored collection is what it was.
\<close>

theorem unknown_id_not_found:
  assumes "\<forall>p \<in> set (fst (loadProducts fs)). \<not> strict_eq (p_id p) (parseInt i)"
  shows "(\<not> missing_fields b \<longrightarrow>
            put_products parseInt i b fs = (not_found, read_products fs)) \<and>
         delete_products parseInt i fs = (not_found, read_products fs) \<and>
         products_json (snd (delete_products parseInt i fs)) = products_json fs \<and>
         io_log (snd (delete_products parseInt i fs)) = io_log fs @ [ReadFile PRODUCTS_FILE] \<and>
         fst (loadProducts (snd (delete_products parseInt i fs))) = fst (loadProducts fs)"
proof -
  note del = delete_products_missing [where parseInt = parseInt and i = i, OF assms]
  have put: "put_products parseInt i b fs = (not_found, read_products fs)"
    if "\<not> missing_fields b"
    by (rule put_products_missing [where parseInt = parseInt and i = i, OF that assms])
  from del put show ?thesis
    by (simp add: loadProducts_log_irrelevant)
qed

theorem unknown_id_not_found_witness:
  "fst (loadProducts (holding [stored 1, stored 2])) = [stored 1, stored 2] \<and>
   \<not> strict_eq (p_id (stored 1)) (paths ''3'') \<and>
   \<not> strict_eq (p_id (stored 2)) (paths ''3'') \<and>
   \<not> missing_fields speaker \<and>
   put_products paths ''3'' speaker (holding [stored 1, stored 2])
     = (not_found, \<lparr>products_json = Some (Json [stored 1, stored 2]), stats_json = None,
                    io_log = [ReadFile PRODUCTS_FILE]\<rparr>) \<and>
   delete_products paths ''3'' (holding [stored 1, stored 2])
     = (not_found, \<lparr>products_json = Some (Json [stored 1, stored 2]), stats_json = None,
                    io_log = [ReadFile PRODUCTS_FILE]\<rparr>)"
proof -
  have l: "fst (loadProducts (holding [stored 1, stored 2])) = [stored 1, stored 2]"
    by (rule loadProducts_holding)
  have n: "\<not> strict_eq (p_id (stored 1)) (paths ''3'')"
      "\<not> strict_eq (p_id (stored 2)) (paths ''3'')"
    by (simp_all add: paths_def)
  have m: "\<not> missing_fields speaker"
    by (simp add: missing_fields_def)
  have a: "\<forall>p \<in> set (fst (loadProducts (holding [stored 1, stored 2]))).
             \<not> strict_eq (p_id p) (paths ''3'')"
    using n by (simp add: l)
  show ?thesis
    using l n m
      unknown_id_not_found [where parseInt = paths and i = "''3''" and b = speaker, OF a]
    by simp
qed

subsection \<open>C4: Update replaces one record in place\<close>

text \<open>
  C4. When all four fields are truthy and some stored product has the id of the path,
  Update replaces the first record of that id, at its index \<open>k\<close>, by
  \<^verbatim>\<open>{id, name, description, image, alt}\<close>, where the id is the number parsed from the path (it
  equals the id of the record replaced); it writes the collection back and answers 200 with
  the new record. The collection keeps its length, and every record at another index is
  the one that was there.
\<close>

theorem update_replaces_in_place:
  assumes "truthy (b_name b)" and "truthy (b_description b)"
      and "truthy (b_image b)" and "truthy (b_alt b)"
      and "\<exists>p \<in> set (fst (loadProducts fs)). strict_eq (p_id p) (parseInt i)"
  shows "\<exists>k n. k < length (fst (loadProducts fs)) \<and>
           parseInt i = Finite n \<and>
           p_id (fst (loadProducts fs) ! k) = Number n \<and>
           (\<forall>j < k. \<not> strict_eq (p_id (fst (loadProducts fs) ! j)) (parseInt i)) \<and>
           put_products parseInt i b fs =
             (\<lparr>status = 200, payload = ProductBody (entry (Number n) b)\<rparr>,
              fs\<lparr>products_json := Some (Json ((fst (loadProducts fs))[k := entry (Number n) b])),
                 io_log := io_log fs @ [ReadFile PRODUCTS_FILE, WriteFile PRODUCTS_FILE]\<rparr>) \<and>
           length ((fst (loadProducts fs))[k := entry (Number n) b]) = length (fst (loadProducts fs)) \<and>
           (fst (loadProducts fs))[k := entry (Number n) b] ! k = entry (Number n) b \<and>
           (\<forall>j < length (fst (loadProducts fs)). j \<noteq> k \<longrightarrow>
               (fst (loadProducts fs))[k := entry (Number n) b] ! j = fst (loadProducts fs) ! j)"
proof -
  let ?ps = "fst (loadProducts fs)"
  let ?P = "\<lambda>p. strict_eq (p_id p) (parseInt i)"
  let ?k = "nat (findIndex ?P ?ps)"
  from assms(1-4) have m: "\<not> missing_fields b"
    by (simp add: missing_fields_def)
  from assms(5) have ne: "findIndex ?P ?ps \<noteq> - 1"
    by (simp add: findIndex_none)
  from findIndex_found [OF ne]
  have k: "?k < length ?ps" and hit: "?P (?ps ! ?k)" and first: "\<forall>j < ?k. \<not> ?P (?ps ! j)"
    by auto
  from strict_eq_number [OF hit]
  obtain n where idk: "p_id (?ps ! ?k) = Number n" and n: "parseInt i = Finite n"
    by auto
  have put: "put_products parseInt i b fs =
      (\<lparr>status = 200, payload = ProductBody (entry (Number n) b)\<rparr>,
       fs\<lparr>products_json := Some (Json (?ps[?k := entry (Number n) b])),
          io_log := io_log fs @ [ReadFile PRODUCTS_FILE, WriteFile PRODUCTS_FILE]\<rparr>)"
    using put_products_found [where parseInt = parseInt and i = i, OF m ne] by (simp add: n)
  show ?thesis
  proof (intro exI conjI)
    show "?k < length ?ps" by (rule k)
    show "parseInt i = Finite n" by (rule n)
    show "p_id (?ps ! ?k) = Number n" by (rule idk)
    show "\<forall>j < ?k. \<not> ?P (?ps ! j)" by (rule first)
    show "put_products parseInt i b fs =
      (\<lparr>status = 200, payload = ProductBody (entry (Number n) b)\<rparr>,
       fs\<lparr>products_json := Some (Json (?ps[?k := entry (Number n) b])),
          io_log := io_log fs @ [ReadFile PRODUCTS_FILE, WriteFile PRODUCTS_FILE]\<rparr>)"
      by (rule put)
    show "length (?ps[?k := entry (Number n) b]) = length ?ps" by simp
    show "?ps[?k := entry (Number n) b] ! ?k = entry (Number n) b" using k by simp
    show "\<forall>j < length ?ps. j \<noteq> ?k \<longrightarrow> ?ps[?k := entry (Number n) b] ! j = ?ps ! j"
      by simp
  qed
qed

theorem update_replaces_in_place_witness:
  "truthy (b_name amp) \<and> truthy (b_description amp) \<and>
   truthy (b_image amp) \<and> truthy (b_alt amp) \<and>
   fst (loadProducts (holding [stored 1, stored 2, stored 3])) = [stored 1, stored 2, stored 3] \<and>
   strict_eq (p_id (stored 2)) (paths ''2'') \<and>
   put_products paths ''2'' amp (holding [stored 1, stored 2, stored 3]) =
     (\<lparr>status = 200, payload = ProductBody (entry (Number 2) amp)\<rparr>,
      \<lparr>products_json = Some (Json [stored 1, entry (Number 2) amp, stored 3]),
       stats_json = None,
       io_log = [ReadFile PRODUCTS_FILE, WriteFile PRODUCTS_FILE]\<rparr>)"
proof -
  have t: "truthy (b_name amp)" "truthy (b_description amp)"
      "truthy (b_image amp)" "truthy (b_alt amp)"
    by simp_all
  have l: "fst (loadProducts (holding [stored 1, stored 2, stored 3])) = [stored 1, stored 2, stored 3]"
    by (rule loadProducts_holding)
  have p: "paths ''2'' = Finite 2"
    by (simp add: paths_def)
  have h: "strict_eq (p_id (stored 2)) (paths ''2'')"
    by (simp add: p)
  have a: "\<exists>p \<in> set (fst (loadProducts (holding [stored 1, stored 2, stored 3]))).
             strict_eq (p_id p) (paths ''2'')"
    using h by (simp add: l)
  from update_replaces_in_place [where parseInt = paths and i = "''2''", OF t a]
  obtain k n where k: "k < length [stored 1, stored 2, stored 3]"
    and n: "Finite 2 = Finite n"
    and idk: "p_id ([stored 1, stored 2, stored 3] ! k) = Number n"
    and put: "put_products paths ''2'' amp (holding [stored 1, stored 2, stored 3]) =
             (\<lparr>status = 200, payload = ProductBody (entry (Number n) amp)\<rparr>,
              (holding [stored 1, stored 2, stored 3])
                 \<lparr>products_json := Some (Json ([stored 1, stored 2, stored 3][k := entry (Number n) amp])),
                 io_log := io_log (holding [stored 1, stored 2, stored 3]) @ [ReadFile PRODUCTS_FILE, WriteFile PRODUCTS_FILE]\<rparr>)"
    unfolding l p by blast
  from n have n2: "n = 2" by simp
  from k have "k = 0 \<or> k = 1 \<or> k = 2" by auto
  with idk n2 have k1: "k = 1" by auto
  show ?thesis
    using t l h put by (simp add: n2 k1)
qed

subsection \<open>C5: the id generator\<close>

text \<open>
  C5, as amended. For the empty sequence the generator returns 1. Otherwise it returns the
  sum, as a double, of 1 and the larger of 0 and the maximum id observed (a missing or
  undefined id counting as 0), for its running maximum starts at 0: that is one more than
  the larger of 0 and the maximum whenever the maximum is below \<open>2 ^ 53\<close>.
\<close>

theorem generateProductId_amended:
  "(ps = [] \<longrightarrow> generateProductId ps = 1) \<and>
   (ps \<noteq> [] \<longrightarrow> generateProductId ps = js_plus (max 0 (spec_max_id ps)) 1) \<and>
   (ps \<noteq> [] \<and> spec_max_id ps < 2 ^ 53 \<longrightarrow>
      generateProductId ps = max 0 (spec_max_id ps) + 1)"
proof -
  have gen0: "ps = [] \<longrightarrow> generateProductId ps = 1"
    by (simp add: generateProductId_Nil)
  have gen1: "ps \<noteq> [] \<longrightarrow> generateProductId ps = js_plus (max 0 (spec_max_id ps)) 1"
    by (simp add: generateProductId_spec)
  have gen2: "ps \<noteq> [] \<and> spec_max_id ps < 2 ^ 53 \<longrightarrow>
      generateProductId ps = max 0 (spec_max_id ps) + 1"
    by (simp add: generateProductId_below)
  from gen0 gen1 gen2 show ?thesis by blast
qed

theorem generateProductId_amended_witness:
  "[stored 3, (stored 0)\<lparr>p_id := Undefined\<rparr>] \<noteq> [] \<and>
   spec_max_id [stored 3, (stored 0)\<lparr>p_id := Undefined\<rparr>] < 2 ^ 53 \<and>
   generateProductId [stored 3, (stored 0)\<lparr>p_id := Undefined\<rparr>] = 4 \<and>
   generateProductId [] = 1"
proof -
  have s: "spec_max_id [stored 3, (stored 0)\<lparr>p_id := Undefined\<rparr>] = 3"
    by (simp add: spec_max_id_def)
  from generateProductId_amended [of "[stored 3, (stored 0)\<lparr>p_id := Undefined\<rparr>]"]
    generateProductId_amended [of "[]"]
  show ?thesis
    unfolding s by simp
qed

text \<open>Where the claim as stated fails: for a collection whose only id is \<open>-5\<close> the
  specification's rule gives \<open>-4\<close> and the program 1; for a collection whose only id is
  \<open>2 ^ 53\<close> the rule gives \<open>2 ^ 53 + 1\<close> and the program \<open>2 ^ 53\<close>.\<close>

theorem generateProductId_counterexample:
  "generateProductId [stored (- 5)] = 1 \<and> spec_nextId [stored (- 5)] = - 4 \<and>
   generateProductId [stored 9007199254740992] = 9007199254740992 \<and>
   spec_nextId [stored 9007199254740992] = 9007199254740993"
proof -
  have "generateProductId [stored (- 5)] = 1"
    by (simp add: generateProductId_def js_plus_exact)
  moreover have "generateProductId [stored 9007199254740992] = 9007199254740992"
    by (simp add: generateProductId_def js_plus_2_53)
  moreover have "spec_nextId [stored (- 5)] = - 4"
      "spec_nextId [stored 9007199254740992] = 9007199254740993"
    by (simp_all add: spec_nextId_def spec_max_id_def)
  ultimately show ?thesis by blast
qed

subsection \<open>C6: ids stay unique\<close>

text \<open>
  C6, as amended. If no two records of the stored collection share an id, the same holds
  of the collection stored after an Update and after a Delete, whatever the body and the
  path: Update leaves the sequence of ids as it was, and Delete leaves the collection as
  it was or removes the record at one index. It holds after a Create when every stored id
  is below \<open>2 ^ 53\<close>: the collection stored after a Create is the prior one, or the prior
  one followed by the new record, whose id is that of the id generator, and below
  \<open>2 ^ 53\<close> that id is the id of no stored record.
\<close>

theorem unique_ids_preserved:
  assumes "unique_ids (fst (loadProducts fs))"
  shows "((\<forall>p \<in> set (fst (loadProducts fs)). id_or_0 (p_id p) < 2 ^ 53) \<longrightarrow>
            unique_ids (fst (loadProducts (snd (post_products b fs)))) \<and>
            Number (generateProductId (fst (loadProducts fs)))
              \<notin> set (map p_id (fst (loadProducts fs)))) \<and>
         fst (loadProducts (snd (post_products b fs))) =
           (if missing_fields b then fst (loadProducts fs)
            else fst (loadProducts fs) @
                   [entry (Number (generateProductId (fst (loadProducts fs)))) b]) \<and>
         unique_ids (fst (loadProducts (snd (put_products parseInt i b fs)))) \<and>
         map p_id (fst (loadProducts (snd (put_products parseInt i b fs))))
           = map p_id (fst (loadProducts fs)) \<and>
         unique_ids (fst (loadProducts (snd (delete_products parseInt i fs)))) \<and>
         (fst (loadProducts (snd (delete_products parseInt i fs))) = fst (loadProducts fs) \<or>
          (\<exists>k < length (fst (loadProducts fs)).
             fst (loadProducts (snd (delete_products parseInt i fs)))
               = splice1 k (fst (loadProducts fs))))"
proof -
  let ?ps = "fst (loadProducts fs)"
  from assms have d: "distinct (map p_id ?ps)"
    by (simp add: unique_ids_def)
  note stored = post_products_stored [of b fs]
  have post: "unique_ids (fst (loadProducts (snd (post_products b fs)))) \<and>
      Number (generateProductId ?ps) \<notin> set (map p_id ?ps)"
    if bound: "\<forall>p \<in> set ?ps. id_or_0 (p_id p) < 2 ^ 53"
  proof -
    from generateProductId_fresh [OF bound]
    have f: "Number (generateProductId ?ps) \<notin> set (map p_id ?ps)" .
    with d have "unique_ids (fst (loadProducts (snd (post_products b fs))))"
      by (simp add: stored unique_ids_def)
    with f show ?thesis by blast
  qed
  note put_ids = put_products_ids [of parseInt i b fs]
  have put: "unique_ids (fst (loadProducts (snd (put_products parseInt i b fs))))"
    using d by (simp add: unique_ids_def put_ids)
  note del = delete_products_result [of parseInt i fs]
  have del_u: "unique_ids (fst (loadProducts (snd (delete_products parseInt i fs))))"
    using del d by (auto simp: unique_ids_def map_splice1 distinct_splice1)
  from post stored put put_ids del_u del show ?thesis by blast
qed

theorem unique_ids_preserved_witness:
  "unique_ids (fst (loadProducts (holding [stored 1, stored 2]))) \<and>
   fst (loadProducts (holding [stored 1, stored 2])) = [stored 1, stored 2] \<and>
   id_or_0 (p_id (stored 1)) < 2 ^ 53 \<and> id_or_0 (p_id (stored 2)) < 2 ^ 53 \<and>
   unique_ids (fst (loadProducts (snd (post_products speaker (holding [stored 1, stored 2]))))) \<and>
   fst (loadProducts (snd (post_products speaker (holding [stored 1, stored 2]))))
     = [stored 1, stored 2, stored 3] \<and>
   unique_ids (fst (loadProducts (snd (put_products paths ''2'' speaker
      (holding [stored 1, stored 2]))))) \<and>
   unique_ids (fst (loadProducts (snd (delete_products paths ''2''
      (holding [stored 1, stored 2]))))) \<and>
   Number (generateProductId (fst (loadProducts (holding [stored 1, stored 2]))))
     \<notin> set (map p_id (fst (loadProducts (holding [stored 1, stored 2]))))"
proof -
  have l: "fst (loadProducts (holding [stored 1, stored 2])) = [stored 1, stored 2]"
    by (rule loadProducts_holding)
  have a: "unique_ids (fst (loadProducts (holding [stored 1, stored 2])))"
    by (simp add: l unique_ids_def)
  have b: "id_or_0 (p_id (stored 1)) < 2 ^ 53" "id_or_0 (p_id (stored 2)) < 2 ^ 53"
    by simp_all
  then have c: "\<forall>p \<in> set (fst (loadProducts (holding [stored 1, stored 2]))).
      id_or_0 (p_id p) < 2 ^ 53"
    by (simp add: l)
  have m: "\<not> missing_fields speaker"
    by (simp add: missing_fields_def)
  have g: "generateProductId [stored 1, stored 2] = 3"
    by (simp add: generateProductId_def js_plus_exact)
  note u = unique_ids_preserved [OF a, where b = speaker and parseInt = paths and i = "''2''"]
  from u have s: "fst (loadProducts (snd (post_products speaker (holding [stored 1, stored 2]))))
     = [stored 1, stored 2, stored 3]"
    unfolding l g using m by simp
  from a l b c s u show ?thesis
    by blast
qed

text \<open>Where the claim as stated fails: the stored collection is one record of id
  \<open>2 ^ 53\<close>. Create stores a second record of id \<open>2 ^ 53\<close>.\<close>

theorem unique_ids_preserved_counterexample:
  "unique_ids (fst (loadProducts (holding [stored 9007199254740992]))) \<and>
   \<not> missing_fields speaker \<and>
   fst (loadProducts (snd (post_products speaker (holding [stored 9007199254740992]))))
     = [stored 9007199254740992, stored 9007199254740992] \<and>
   \<not> unique_ids (fst (loadProducts (snd (post_products speaker
        (holding [stored 9007199254740992])))))"
proof -
  have m: "\<not> missing_fields speaker"
    by (simp add: missing_fields_def)
  have g: "generateProductId [stored 9007199254740992] = 9007199254740992"
    by (simp add: generateProductId_def js_plus_2_53)
  have s: "fst (loadProducts (snd (post_products speaker (holding [stored 9007199254740992]))))
     = [stored 9007199254740992, stored 9007199254740992]"
    by (simp add: post_products_stored m loadProducts_holding g)
  show ?thesis
    unfolding s using m by (simp add: loadProducts_holding unique_ids_def)
qed

subsection \<open>C7: loading falls back to the default\<close>

text \<open>
  C7. When the product file is absent or does not parse, \<open>loadProducts\<close> returns the empty
  sequence and List answers 200 with the empty sequence; when the stats file is absent or
  does not parse, \<open>loadStats\<close> returns \<^verbatim>\<open>{visits: 0}\<close> and GetStats answers 200 with
  \<^verbatim>\<open>{visits: 0}\<close>. Both loaders catch every exception of their body, so they return a value
  on every disk and hand no exception to the caller.
\<close>

theorem load_falls_back_to_default:
  "(products_json fs = None \<or> products_json fs = Some Garbage \<longrightarrow>
      fst (loadProducts fs) = [] \<and>
      fst (get_products fs) = \<lparr>status = 200, payload = ProductsBody []\<rparr>) \<and>
   (stats_json fs = None \<or> stats_json fs = Some Garbage \<longrightarrow>
      fst (loadStats fs) = no_visits \<and>
      fst (get_stats fs) = \<lparr>status = 200, payload = StatsBody no_visits\<rparr>)"
proof -
  have p: "fst (loadProducts fs) = []"
    if "products_json fs = None \<or> products_json fs = Some Garbage"
    using that by (auto simp: loadProducts_def readFileSync_def JSON_parse_def)
  have s: "fst (loadStats fs) = no_visits"
    if "stats_json fs = None \<or> stats_json fs = Some Garbage"
    using that by (auto simp: loadStats_def readFileSync_def JSON_parse_def)
  show ?thesis
    using p s by (simp add: get_products_eq get_stats_eq)
qed

theorem load_falls_back_to_default_witness:
  "fst (loadProducts fresh) = [] \<and>
   fst (loadStats fresh) = no_visits \<and>
   fst (get_products fresh) = \<lparr>status = 200, payload = ProductsBody []\<rparr> \<and>
   fst (get_stats fresh) = \<lparr>status = 200, payload = StatsBody no_visits\<rparr> \<and>
   fst (get_products \<lparr>products_json = Some Garbage, stats_json = Some Garbage, io_log = []\<rparr>)
     = \<lparr>status = 200, payload = ProductsBody []\<rparr> \<and>
   fst (get_stats \<lparr>products_json = Some Garbage, stats_json = Some Garbage, io_log = []\<rparr>)
     = \<lparr>status = 200, payload = StatsBody no_visits\<rparr>"
  using load_falls_back_to_default [of fresh]
    load_falls_back_to_default [of "\<lparr>products_json = Some Garbage, stats_json = Some Garbage, io_log = []\<rparr>"]
  by simp

subsection \<open>C8: RecordVisit\<close>

text \<open>
  C8, as amended. One RecordVisit reads the stats, sets \<^verbatim>\<open>visits\<close> to the sum, as a double,
  of the former count (an absent or undefined count being 0) and 1, writes the stats back
  and answers with the new count. When the initial value is at least \<open>- 2 ^ 53\<close> and the
  initial value plus \<open>n\<close> is at most \<open>2 ^ 53\<close>, the responses of \<open>n\<close> calls in sequence are
  the counts from the initial value plus one up to the initial value plus \<open>n\<close>, and the
  stored count is then the initial value plus \<open>n\<close>.
\<close>

theorem record_visit_counts:
  "post_stats_visit fs =
     (\<lparr>status = 200,
       payload = VisitsBody (Number (js_plus (or_zero (visits (fst (loadStats fs)))) 1))\<rparr>,
      fs\<lparr>stats_json := Some (Json ((fst (loadStats fs))
               \<lparr>visits := Number (js_plus (or_zero (visits (fst (loadStats fs)))) 1)\<rparr>)),
         io_log := io_log fs @ [ReadFile STATS_FILE, WriteFile STATS_FILE]\<rparr>) \<and>
   (- (2 ^ 53) \<le> or_zero (visits (fst (loadStats fs))) \<and>
    or_zero (visits (fst (loadStats fs))) + int n \<le> 2 ^ 53 \<longrightarrow>
      fst (serve parseInt (replicate n POST_stats_visit) fs) =
        map (\<lambda>k. \<lparr>status = 200,
                   payload = VisitsBody (Number (or_zero (visits (fst (loadStats fs))) + int k + 1))\<rparr>)
          [0..<n] \<and>
      or_zero (visits (fst (loadStats (snd (serve parseInt (replicate n POST_stats_visit) fs)))))
        = or_zero (visits (fst (loadStats fs))) + int n)"
  using post_stats_visit_eq [of fs] serve_visits [of fs n parseInt] by blast

theorem record_visit_counts_witness:
  "or_zero (visits (fst (loadStats fresh))) = 0 \<and>
   fst (serve paths (replicate 3 POST_stats_visit) fresh) =
     [\<lparr>status = 200, payload = VisitsBody (Number 1)\<rparr>,
      \<lparr>status = 200, payload = VisitsBody (Number 2)\<rparr>,
      \<lparr>status = 200, payload = VisitsBody (Number 3)\<rparr>] \<and>
   or_zero (visits (fst (loadStats (snd (serve paths (replicate 3 POST_stats_visit) fresh))))) = 3 \<and>
   or_zero (visits (fst (loadStats (counting 7)))) = 7 \<and>
   fst (serve paths (replicate 2 POST_stats_visit) (counting 7)) =
     [\<lparr>status = 200, payload = VisitsBody (Number 8)\<rparr>,
      \<lparr>status = 200, payload = VisitsBody (Number 9)\<rparr>] \<and>
   or_zero (visits (fst (loadStats (snd (serve paths (replicate 2 POST_stats_visit)
      (counting 7)))))) = 9"
proof -
  have v: "or_zero (visits (fst (loadStats fresh))) = 0"
    by (simp add: loadStats_def readFileSync_def JSON_parse_def)
  have w: "or_zero (visits (fst (loadStats (counting 7)))) = 7"
    by (simp add: loadStats_counting)
  have u: "[0..<3] = [0, 1, 2]" "[0..<2] = [0, 1]"
    by (simp_all add: upt_rec)
  note a = record_visit_counts [of fresh 3 paths, unfolded v u]
  note b = record_visit_counts [of "counting 7" 2 paths, unfolded w u]
  from a have a': "fst (serve paths (replicate 3 POST_stats_visit) fresh) =
     [\<lparr>status = 200, payload = VisitsBody (Number 1)\<rparr>,
      \<lparr>status = 200, payload = VisitsBody (Number 2)\<rparr>,
      \<lparr>status = 200, payload = VisitsBody (Number 3)\<rparr>] \<and>
   or_zero (visits (fst (loadStats (snd (serve paths (replicate 3 POST_stats_visit) fresh))))) = 3"
    by (simp del: serve.simps replicate.simps)
  from b have b': "fst (serve paths (replicate 2 POST_stats_visit) (counting 7)) =
     [\<lparr>status = 200, payload = VisitsBody (Number 8)\<rparr>,
      \<lparr>status = 200, payload = VisitsBody (Number 9)\<rparr>] \<and>
   or_zero (visits (fst (loadStats (snd (serve paths (replicate 2 POST_stats_visit)
      (counting 7)))))) = 9"
    by (simp del: serve.simps replicate.simps)
  from v w a' b' show ?thesis by blast
qed

text \<open>Where the claim as stated fails: the stored count is \<open>2 ^ 53\<close>. One RecordVisit
  answers \<open>2 ^ 53\<close> and stores \<open>2 ^ 53\<close>, not the initial value plus 1.\<close>

theorem record_visit_counts_counterexample:
  "or_zero (visits (fst (loadStats (counting 9007199254740992)))) = 9007199254740992 \<and>
   fst (serve paths [POST_stats_visit] (counting 9007199254740992)) =
     [\<lparr>status = 200, payload = VisitsBody (Number 9007199254740992)\<rparr>] \<and>
   or_zero (visits (fst (loadStats (snd (serve paths [POST_stats_visit]
      (counting 9007199254740992)))))) = 9007199254740992 \<and>
   or_zero (visits (fst (loadStats (snd (serve paths [POST_stats_visit]
      (counting 9007199254740992))))))
     \<noteq> or_zero (visits (fst (loadStats (counting 9007199254740992)))) + 1"
  by (simp add: post_stats_visit_eq loadStats_counting js_plus_2_53
        loadStats_def readFileSync_def JSON_parse_def)

subsection \<open>C9: GetStats\<close>

text \<open>
  C9. GetStats answers 200 with the stats as loaded and only reads the stats file. In any
  sequence of requests without a RecordVisit, whatever else is requested in between, every
  GetStats answers with the same value, the stats as loaded before the first request, and
  the stats file is left as it was. In particular \<open>n\<close> GetStats calls in a row give \<open>n\<close>
  equal answers, and their only file operations are \<open>n\<close> reads of the stats file.
\<close>

theorem get_stats_read_only:
  assumes "POST_stats_visit \<notin> set rs"
  shows "get_stats fs = (\<lparr>status = 200, payload = StatsBody (fst (loadStats fs))\<rparr>, read_stats fs) \<and>
         stats_json (snd (serve parseInt rs fs)) = stats_json fs \<and>
         fst (loadStats (snd (serve parseInt rs fs))) = fst (loadStats fs) \<and>
         (\<forall>k < length rs. rs ! k = GET_stats \<longrightarrow>
            fst (serve parseInt rs fs) ! k
              = \<lparr>status = 200, payload = StatsBody (fst (loadStats fs))\<rparr>) \<and>
         serve parseInt (replicate n GET_stats) fs =
           (replicate n \<lparr>status = 200, payload = StatsBody (fst (loadStats fs))\<rparr>,
            fs\<lparr>io_log := io_log fs @ replicate n (ReadFile STATS_FILE)\<rparr>)"
proof -
  note s = serve_without_visits [OF assms, of parseInt fs]
  from s have "stats_json (snd (serve parseInt rs fs)) = stats_json fs"
    by blast
  then have "fst (loadStats (snd (serve parseInt rs fs))) = fst (loadStats fs)"
    by (rule loadStats_depends_on_file)
  with s show ?thesis
    by (simp add: get_stats_eq serve_get_stats)
qed

theorem get_stats_read_only_witness:
  "POST_stats_visit \<notin> set [GET_stats, POST_products speaker, GET_stats] \<and>
   fst (serve paths [GET_stats, POST_products speaker, GET_stats] (counting 7)) ! 0 =
     \<lparr>status = 200, payload = StatsBody \<lparr>visits = Number 7, s_rest = []\<rparr>\<rparr> \<and>
   fst (serve paths [GET_stats, POST_products speaker, GET_stats] (counting 7)) ! 2 =
     \<lparr>status = 200, payload = StatsBody \<lparr>visits = Number 7, s_rest = []\<rparr>\<rparr> \<and>
   stats_json (snd (serve paths [GET_stats, POST_products speaker, GET_stats] (counting 7))) =
     Some (Json \<lparr>visits = Number 7, s_rest = []\<rparr>)"
proof -
  have a: "POST_stats_visit \<notin> set [GET_stats, POST_products speaker, GET_stats]"
    by simp
  have l: "fst (loadStats (counting 7)) = \<lparr>visits = Number 7, s_rest = []\<rparr>"
    by (rule loadStats_counting)
  note t = get_stats_read_only [OF a, of "counting 7" paths, unfolded l]
  from t have k: "\<forall>k < length [GET_stats, POST_products speaker, GET_stats].
      [GET_stats, POST_products speaker, GET_stats] ! k = GET_stats \<longrightarrow>
      fst (serve paths [GET_stats, POST_products speaker, GET_stats] (counting 7)) ! k
        = \<lparr>status = 200, payload = StatsBody \<lparr>visits = Number 7, s_rest = []\<rparr>\<rparr>"
    by blast
  have k0: "fst (serve paths [GET_stats, POST_products speaker, GET_stats] (counting 7)) ! 0
        = \<lparr>status = 200, payload = StatsBody \<lparr>visits = Number 7, s_rest = []\<rparr>\<rparr>"
    using k [rule_format, of 0] by (simp del: serve.simps)
  have k2: "fst (serve paths [GET_stats, POST_products speaker, GET_stats] (counting 7)) ! 2
        = \<lparr>status = 200, payload = StatsBody \<lparr>visits = Number 7, s_rest = []\<rparr>\<rparr>"
    using k [rule_format, of 2] by (simp del: serve.simps)
  from t have s: "stats_json (snd (serve paths [GET_stats, POST_products speaker, GET_stats] (counting 7)))
      = Some (Json \<lparr>visits = Number 7, s_rest = []\<rparr>)"
    by (simp del: serve.simps)
  from a k0 k2 s show ?thesis by blast
qed

subsection \<open>C10: Update validates before it looks the product up\<close>

text \<open>
  C10. When the body of an Update lacks a required field and the id of the path matches no
  stored product, the response is the 400 of the validation error and not the 404 of the
  lookup, and the disk is returned as it was, its log of file operations included: the
  store was neither read nor written.
\<close>

theorem put_validates_before_lookup:
  assumes "missing_fields b"
      and "\<forall>p \<in> set (fst (loadProducts fs)). \<not> strict_eq (p_id p) (parseInt i)"
  shows "fst (put_products parseInt i b fs) = bad_request \<and>
         fst (put_products parseInt i b fs) \<noteq> not_found \<and>
         snd (put_products parseInt i b fs) = fs \<and>
         io_log (snd (put_products parseInt i b fs)) = io_log fs"
  using assms(1) by (simp add: put_products_def)

theorem put_validates_before_lookup_witness:
  "missing_fields (speaker\<lparr>b_name := None\<rparr>) \<and>
   fst (loadProducts (holding [stored 1])) = [stored 1] \<and>
   \<not> strict_eq (p_id (stored 1)) (paths ''7'') \<and>
   fst (put_products paths ''7'' (speaker\<lparr>b_name := None\<rparr>) (holding [stored 1])) = bad_request \<and>
   snd (put_products paths ''7'' (speaker\<lparr>b_name := None\<rparr>) (holding [stored 1]))
     = holding [stored 1]"
proof -
  have m: "missing_fields (speaker\<lparr>b_name := None\<rparr>)"
    by (simp add: missing_fields_def)
  have l: "fst (loadProducts (holding [stored 1])) = [stored 1]"
    by (rule loadProducts_holding)
  have n: "\<not> strict_eq (p_id (stored 1)) (paths ''7'')"
    by (simp add: paths_def)
  have a: "\<forall>p \<in> set (fst (loadProducts (holding [stored 1]))).
             \<not> strict_eq (p_id p) (paths ''7'')"
    using n by (simp add: l)
  show ?thesis
    using m l n put_validates_before_lookup [where parseInt = paths and i = "''7''", OF m a]
    by simp
qed

end
